theory Spec2Isabelle
  imports Main "HOL-Library.AList"
begin

section \<open>JSON values\<close>

text \<open>
  The values that \<^verbatim>\<open>JSON.parse\<close> produces and \<^verbatim>\<open>JSON.stringify\<close> consumes. An object is
  the list of its own properties in the order of their creation; a number is kept as the
  decimal literal that denotes it (it is not rounded to a double). Characters are the
  256 values of \<^typ>\<open>char\<close>.

  Property names are plain strings here. What the runtime and the libraries do for
  particular names is left out: names that look like array indices come first when a
  JavaScript object is enumerated, and the name \<^verbatim>\<open>__proto__\<close> is treated apart.
\<close>

datatype json =
    JNull
  | JBool bool
  | JNum string
  | JStr string
  | JArr "json list"
  | JObj "(string \<times> json) list"

section \<open>JSON.stringify\<close>

text \<open>
  \<^verbatim>\<open>JSON.stringify(value, null, space)\<close> of the JavaScript runtime, for JSON values: \<open>gap\<close> is
  the number of blanks of one indentation step (\<open>0\<close> when no \<^verbatim>\<open>space\<close> is given) and
  \<open>ind\<close> the current indentation. Characters below \<open>0x20\<close>, the quotation mark and the
  backslash are escaped; a number is written as its literal.
\<close>

definition hex_digit :: "nat \<Rightarrow> char" where
  "hex_digit n = (if n < 10 then char_of (48 + n) else char_of (87 + n))"

definition QuoteJSONChar :: "char \<Rightarrow> string" where
  "QuoteJSONChar c =
     (if c = CHR 0x22 then [CHR 0x5C, CHR 0x22]
      else if c = CHR 0x5C then [CHR 0x5C, CHR 0x5C]
      else if c = CHR 0x08 then [CHR 0x5C, CHR ''b'']
      else if c = CHR 0x09 then [CHR 0x5C, CHR ''t'']
      else if c = CHR 0x0A then [CHR 0x5C, CHR ''n'']
      else if c = CHR 0x0C then [CHR 0x5C, CHR ''f'']
      else if c = CHR 0x0D then [CHR 0x5C, CHR ''r'']
      else if (of_char c :: nat) < 32
        then [CHR 0x5C, CHR ''u'', CHR ''0'', CHR ''0'',
              hex_digit (of_char c div 16), hex_digit (of_char c mod 16)]
      else [c])"

definition QuoteJSONString :: "string \<Rightarrow> string" where
  "QuoteJSONString s = CHR 0x22 # concat (map QuoteJSONChar s) @ [CHR 0x22]"

fun join :: "string \<Rightarrow> string list \<Rightarrow> string" where
  "join sep [] = []"
| "join sep [x] = x"
| "join sep (x # y # ys) = x @ sep @ join sep (y # ys)"

text \<open>The line break before an item at indentation \<open>ind\<close>; nothing when there is no gap.\<close>

definition line_break :: "nat \<Rightarrow> nat \<Rightarrow> string" where
  "line_break gap ind = (if gap = 0 then [] else CHR 0x0A # replicate ind CHR '' '')"

fun SerializeJSONProperty :: "nat \<Rightarrow> nat \<Rightarrow> json \<Rightarrow> string"
  and SerializeJSONElements :: "nat \<Rightarrow> nat \<Rightarrow> json list \<Rightarrow> string list"
  and SerializeJSONMembers :: "nat \<Rightarrow> nat \<Rightarrow> (string \<times> json) list \<Rightarrow> string list"
where
  "SerializeJSONProperty gap ind JNull = ''null''"
| "SerializeJSONProperty gap ind (JBool b) = (if b then ''true'' else ''false'')"
| "SerializeJSONProperty gap ind (JNum n) = n"
| "SerializeJSONProperty gap ind (JStr s) = QuoteJSONString s"
| "SerializeJSONProperty gap ind (JArr vs) =
     (if vs = [] then ''[]''
      else ''['' @ line_break gap (ind + gap)
           @ join ('','' @ line_break gap (ind + gap)) (SerializeJSONElements gap (ind + gap) vs)
           @ line_break gap ind @ '']'')"
| "SerializeJSONProperty gap ind (JObj ms) =
     (if ms = [] then ''{}''
      else ''{'' @ line_break gap (ind + gap)
           @ join ('','' @ line_break gap (ind + gap)) (SerializeJSONMembers gap (ind + gap) ms)
           @ line_break gap ind @ ''}'')"
| "SerializeJSONElements gap ind [] = []"
| "SerializeJSONElements gap ind (v # vs) =
     SerializeJSONProperty gap ind v # SerializeJSONElements gap ind vs"
| "SerializeJSONMembers gap ind [] = []"
| "SerializeJSONMembers gap ind ((k, v) # ms) =
     (QuoteJSONString k @ '':'' @ (if gap = 0 then [] else '' '') @ SerializeJSONProperty gap ind v)
       # SerializeJSONMembers gap ind ms"

definition JSON_stringify :: "json \<Rightarrow> nat \<Rightarrow> string" where
  "JSON_stringify v space = SerializeJSONProperty (min space 10) 0 v"

section \<open>JSON.parse\<close>

text \<open>
  \<^verbatim>\<open>JSON.parse(text)\<close> of the JavaScript runtime: a recursive-descent reader of the JSON
  grammar. The nesting functions take a bound on the number of nested calls. An escape
  \<^verbatim>\<open>\uXXXX\<close> above \<^verbatim>\<open>00FF\<close> has no character in \<^typ>\<open>char\<close> and is refused.
\<close>

definition is_ws :: "char \<Rightarrow> bool" where
  "is_ws c = (c = CHR '' '' \<or> c = CHR 0x09 \<or> c = CHR 0x0A \<or> c = CHR 0x0D)"

definition skip_ws :: "string \<Rightarrow> string" where
  "skip_ws s = dropWhile is_ws s"

definition is_digit :: "char \<Rightarrow> bool" where
  "is_digit c = (48 \<le> (of_char c :: nat) \<and> (of_char c :: nat) \<le> 57)"

definition hex_value :: "char \<Rightarrow> nat option" where
  "hex_value c =
     (let n = (of_char c :: nat) in
      if 48 \<le> n \<and> n \<le> 57 then Some (n - 48)
      else if 97 \<le> n \<and> n \<le> 102 then Some (n - 87)
      else if 65 \<le> n \<and> n \<le> 70 then Some (n - 55)
      else None)"

definition unicode_escape :: "char \<Rightarrow> char \<Rightarrow> char \<Rightarrow> char \<Rightarrow> char option" where
  "unicode_escape a b c d =
     (case (hex_value a, hex_value b, hex_value c, hex_value d) of
        (Some x, Some y, Some z, Some w) \<Rightarrow>
          (if x = 0 \<and> y = 0 then Some (char_of (16 * z + w)) else None)
      | _ \<Rightarrow> None)"

definition simple_escape :: "char \<Rightarrow> char option" where
  "simple_escape e =
     (if e = CHR 0x22 then Some (CHR 0x22)
      else if e = CHR 0x5C then Some (CHR 0x5C)
      else if e = CHR ''/'' then Some (CHR ''/'')
      else if e = CHR ''b'' then Some (CHR 0x08)
      else if e = CHR ''f'' then Some (CHR 0x0C)
      else if e = CHR ''n'' then Some (CHR 0x0A)
      else if e = CHR ''r'' then Some (CHR 0x0D)
      else if e = CHR ''t'' then Some (CHR 0x09)
      else None)"

fun parse_string :: "string \<Rightarrow> (string \<times> string) option" where
  "parse_string [] = None"
| "parse_string (c # cs) =
     (if c = CHR 0x22 then Some ([], cs)
      else if c = CHR 0x5C then
        (case cs of
           [] \<Rightarrow> None
         | e # r \<Rightarrow>
             if e = CHR ''u'' then
               (case r of
                  h1 # h2 # h3 # h4 # r' \<Rightarrow>
                    (case unicode_escape h1 h2 h3 h4 of
                       None \<Rightarrow> None
                     | Some ch \<Rightarrow>
                         (case parse_string r' of
                            None \<Rightarrow> None
                          | Some (s, rest) \<Rightarrow> Some (ch # s, rest)))
                | _ \<Rightarrow> None)
             else
               (case simple_escape e of
                  None \<Rightarrow> None
                | Some ch \<Rightarrow>
                    (case parse_string r of
                       None \<Rightarrow> None
                     | Some (s, rest) \<Rightarrow> Some (ch # s, rest))))
      else if (of_char c :: nat) < 32 then None
      else (case parse_string cs of
              None \<Rightarrow> None
            | Some (s, rest) \<Rightarrow> Some (c # s, rest)))"

text \<open>digits+ : the longest run of digits, which must not be empty\<close>

definition digits1 :: "string \<Rightarrow> (string \<times> string) option" where
  "digits1 s = (if takeWhile is_digit s = [] then None
                else Some (takeWhile is_digit s, dropWhile is_digit s))"

definition parse_int_part :: "string \<Rightarrow> (string \<times> string) option" where
  "parse_int_part s =
     (case s of
        [] \<Rightarrow> None
      | c # r \<Rightarrow> if c = CHR ''0'' then Some ([c], r) else digits1 s)"

definition parse_frac :: "string \<Rightarrow> (string \<times> string) option" where
  "parse_frac s =
     (case s of
        [] \<Rightarrow> Some ([], s)
      | c # r \<Rightarrow>
          if c = CHR ''.'' then
            (case digits1 r of None \<Rightarrow> None | Some (ds, r') \<Rightarrow> Some (c # ds, r'))
          else Some ([], s))"

definition parse_exp :: "string \<Rightarrow> (string \<times> string) option" where
  "parse_exp s =
     (case s of
        [] \<Rightarrow> Some ([], s)
      | c # r \<Rightarrow>
          if c = CHR ''e'' \<or> c = CHR ''E'' then
            (case r of
               [] \<Rightarrow> None
             | g # r' \<Rightarrow>
                 if g = CHR ''+'' \<or> g = CHR ''-'' then
                   (case digits1 r' of None \<Rightarrow> None | Some (ds, r'') \<Rightarrow> Some (c # g # ds, r''))
                 else
                   (case digits1 r of None \<Rightarrow> None | Some (ds, r'') \<Rightarrow> Some (c # ds, r'')))
          else Some ([], s))"

definition parse_number :: "string \<Rightarrow> (string \<times> string) option" where
  "parse_number s =
     (let (sign, s1) = (case s of [] \<Rightarrow> ([], s)
                        | c # r \<Rightarrow> if c = CHR ''-'' then ([c], r) else ([], s))
      in case parse_int_part s1 of
           None \<Rightarrow> None
         | Some (i, s2) \<Rightarrow>
             (case parse_frac s2 of
                None \<Rightarrow> None
              | Some (f, s3) \<Rightarrow>
                  (case parse_exp s3 of
                     None \<Rightarrow> None
                   | Some (e, s4) \<Rightarrow> Some (sign @ i @ f @ e, s4))))"

definition parse_literal :: "string \<Rightarrow> json \<Rightarrow> string \<Rightarrow> (json \<times> string) option" where
  "parse_literal lit v s =
     (if take (length lit) s = lit then Some (v, drop (length lit) s) else None)"

text \<open>Defining a property on the object under construction: a repeated name keeps its
  first position and takes the later value.\<close>

definition object_of_members :: "(string \<times> json) list \<Rightarrow> (string \<times> json) list" where
  "object_of_members ms = foldl (\<lambda>obj (k, v). AList.update k v obj) [] ms"

fun parse_value :: "nat \<Rightarrow> string \<Rightarrow> (json \<times> string) option"
  and parse_elements :: "nat \<Rightarrow> string \<Rightarrow> (json list \<times> string) option"
  and parse_members :: "nat \<Rightarrow> string \<Rightarrow> ((string \<times> json) list \<times> string) option"
where
  "parse_value 0 s = None"
| "parse_value (Suc n) s =
     (case skip_ws s of
        [] \<Rightarrow> None
      | c # cs \<Rightarrow>
          if c = CHR ''{'' then
            (case skip_ws cs of
               [] \<Rightarrow> None
             | d # ds \<Rightarrow>
                 if d = CHR ''}'' then Some (JObj [], ds)
                 else (case parse_members n cs of
                         None \<Rightarrow> None
                       | Some (ms, r) \<Rightarrow> Some (JObj (object_of_members ms), r)))
          else if c = CHR ''['' then
            (case skip_ws cs of
               [] \<Rightarrow> None
             | d # ds \<Rightarrow>
                 if d = CHR '']'' then Some (JArr [], ds)
                 else (case parse_elements n cs of
                         None \<Rightarrow> None
                       | Some (vs, r) \<Rightarrow> Some (JArr vs, r)))
          else if c = CHR 0x22 then
            (case parse_string cs of
               None \<Rightarrow> None
             | Some (str, r) \<Rightarrow> Some (JStr str, r))
          else if c = CHR ''t'' then parse_literal ''true'' (JBool True) (c # cs)
          else if c = CHR ''f'' then parse_literal ''false'' (JBool False) (c # cs)
          else if c = CHR ''n'' then parse_literal ''null'' JNull (c # cs)
          else (case parse_number (c # cs) of
                  None \<Rightarrow> None
                | Some (lexeme, r) \<Rightarrow> Some (JNum lexeme, r)))"
| "parse_elements 0 s = None"
| "parse_elements (Suc n) s =
     (case parse_value n s of
        None \<Rightarrow> None
      | Some (v, r) \<Rightarrow>
          (case skip_ws r of
             [] \<Rightarrow> None
           | c # r' \<Rightarrow>
               if c = CHR '','' then
                 (case parse_elements n r' of
                    None \<Rightarrow> None
                  | Some (vs, r'') \<Rightarrow> Some (v # vs, r''))
               else if c = CHR '']'' then Some ([v], r')
               else None))"
| "parse_members 0 s = None"
| "parse_members (Suc n) s =
     (case skip_ws s of
        [] \<Rightarrow> None
      | q # s1 \<Rightarrow>
          if q = CHR 0x22 then
            (case parse_string s1 of
               None \<Rightarrow> None
             | Some (k, s2) \<Rightarrow>
                 (case skip_ws s2 of
                    [] \<Rightarrow> None
                  | c # s3 \<Rightarrow>
                      if c = CHR '':'' then
                        (case parse_value n s3 of
                           None \<Rightarrow> None
                         | Some (v, s4) \<Rightarrow>
                             (case skip_ws s4 of
                                [] \<Rightarrow> None
                              | d # s5 \<Rightarrow>
                                  if d = CHR '','' then
                                    (case parse_members n s5 of
                                       None \<Rightarrow> None
                                     | Some (ms, s6) \<Rightarrow> Some ((k, v) # ms, s6))
                                  else if d = CHR ''}'' then Some ([(k, v)], s5)
                                  else None))
                      else None))
          else None)"

text \<open>\<^verbatim>\<open>JSON.parse(text)\<close>, with \<open>None\<close> for the thrown \<^verbatim>\<open>SyntaxError\<close>. The bound is
  twice the length of the text and one: no larger bound changes the result (lemma
  \<open>parse_value_fuel\<close> below), so this is the reader without a bound.\<close>

definition JSON_parse :: "string \<Rightarrow> json option" where
  "JSON_parse text =
     (case parse_value (Suc (2 * length text)) text of
        None \<Rightarrow> None
      | Some (v, r) \<Rightarrow> if skip_ws r = [] then Some v else None)"

section \<open>The memory document and its schema (resources/index.ts)\<close>

text \<open>
  \<^verbatim>\<open>MemoryData = z.infer<typeof MemorySchema>\<close>: a \<^verbatim>\<open>user_id\<close> string and the record
  \<^verbatim>\<open>known_concepts\<close> from concept name to known status, in property order.
\<close>

record MemoryData =
  user_id :: string
  known_concepts :: "(string \<times> bool) list"

text \<open>\<^verbatim>\<open>z.record(z.string(), z.boolean())\<close> on the properties of an object: every value must be
  a boolean; the keys are kept in order.\<close>

fun record_boolean_parse :: "(string \<times> json) list \<Rightarrow> (string \<times> bool) list option" where
  "record_boolean_parse [] = Some []"
| "record_boolean_parse ((k, v) # ms) =
     (case v of
        JBool b \<Rightarrow> (case record_boolean_parse ms of
                      None \<Rightarrow> None
                    | Some r \<Rightarrow> Some ((k, b) # r))
      | _ \<Rightarrow> None)"

text \<open>
  \<^verbatim>\<open>MemorySchema.parse\<close>, with \<open>None\<close> for the thrown \<^verbatim>\<open>ZodError\<close>:
  \<^verbatim>\<open>z.object({ user_id: z.string(), known_concepts: z.record(z.string(), z.boolean()) })\<close>.
  The input must be an object whose \<^verbatim>\<open>user_id\<close> is a string and whose
  \<^verbatim>\<open>known_concepts\<close> is an object of booleans; properties outside the shape are
  dropped from the result.
\<close>

definition MemorySchema_parse :: "json \<Rightarrow> MemoryData option" where
  "MemorySchema_parse j =
     (case j of
        JObj ms \<Rightarrow>
          (case map_of ms ''user_id'' of
             Some (JStr u) \<Rightarrow>
               (case map_of ms ''known_concepts'' of
                  Some (JObj kc) \<Rightarrow>
                    (case record_boolean_parse kc of
                       None \<Rightarrow> None
                     | Some r \<Rightarrow> Some \<lparr>user_id = u, known_concepts = r\<rparr>)
                | _ \<Rightarrow> None)
           | _ \<Rightarrow> None)
      | _ \<Rightarrow> None)"

text \<open>A \<^verbatim>\<open>MemoryData\<close> value as the JavaScript object it is: the two properties in the order
  of the schema's shape.\<close>

definition json_of_known_concepts :: "(string \<times> bool) list \<Rightarrow> json" where
  "json_of_known_concepts kc = JObj (map (\<lambda>(k, b). (k, JBool b)) kc)"

definition json_of_MemoryData :: "MemoryData \<Rightarrow> json" where
  "json_of_MemoryData d =
     JObj [(''user_id'', JStr (user_id d)),
           (''known_concepts'', json_of_known_concepts (known_concepts d))]"

section \<open>Errors\<close>

text \<open>
  The exceptions of the runtime and the libraries that the code catches or lets pass:
  a file that cannot be read, \<^verbatim>\<open>SyntaxError\<close> of \<^verbatim>\<open>JSON.parse\<close>, \<^verbatim>\<open>ZodError\<close> of a
  schema's \<^verbatim>\<open>parse\<close>, \<^verbatim>\<open>TypeError\<close> of a property read on \<^verbatim>\<open>null\<close>, a rejected
  \<^verbatim>\<open>fetch\<close>.
\<close>

datatype js_error = ENOENT | SyntaxError | ZodError | TypeError | FetchError

text \<open>
  The failures of an invocation. The code throws \<^verbatim>\<open>Error\<close> objects told apart by their
  message; each constructor stands for one message and carries its cause:
  \<^item> \<open>ReadMemoryError\<close>: \<^verbatim>\<open>Failed to read/parse memory file: ...\<close> (the taxonomy's
    \<^verbatim>\<open>StoreUnavailable\<close> for \<open>ENOENT\<close>, \<^verbatim>\<open>CorruptState\<close> for \<open>SyntaxError\<close> and \<open>ZodError\<close>);
  \<^item> \<open>WriteMemoryError\<close>: \<^verbatim>\<open>Failed to validate/write memory file: ...\<close> (\<^verbatim>\<open>InvalidDocument\<close>);
  \<^item> \<open>OpenRouterRequestFailed\<close>: \<^verbatim>\<open>OpenRouter API request failed: status statusText - body\<close>
    (\<^verbatim>\<open>UpstreamError\<close>);
  \<^item> \<open>NoAssistantMessage\<close>: \<^verbatim>\<open>Could not extract assistant message from OpenRouter response.\<close>
    (\<^verbatim>\<open>UpstreamProtocolError\<close>);
  \<^item> \<open>Rethrown\<close>: an exception that the handler's \<^verbatim>\<open>catch\<close> logs and throws again;
  \<^item> \<open>InvalidInput\<close>, \<open>UnknownCapability\<close>, \<open>DuplicateCapability\<close>: the registry's own failures.
\<close>

datatype error =
    ReadMemoryError js_error
  | WriteMemoryError js_error
  | OpenRouterRequestFailed nat string string
  | NoAssistantMessage
  | Rethrown js_error
  | InvalidInput
  | UnknownCapability
  | DuplicateCapability

section \<open>The knowledge store (resources/index.ts)\<close>

text \<open>
  The file system as far as the server uses it: the text of \<^verbatim>\<open>data/memory.json\<close>
  (\<open>None\<close> when \<^verbatim>\<open>fs.readFile\<close> fails) and the number of \<^verbatim>\<open>fs.writeFile\<close> calls made so
  far. A write replaces the whole text; failures of the write itself are not modelled.
\<close>

record files =
  memory_json :: "string option"
  writes :: nat

definition fs_writeFile :: "string \<Rightarrow> files \<Rightarrow> files" where
  "fs_writeFile dataString fs = fs\<lparr>memory_json := Some dataString, writes := Suc (writes fs)\<rparr>"

text \<open>\<^verbatim>\<open>readMemory\<close>: read the file, \<^verbatim>\<open>JSON.parse\<close> it, validate it with the schema; every
  exception is caught and thrown again as the read error.\<close>

definition readMemory :: "files \<Rightarrow> (error + MemoryData) \<times> files" where
  "readMemory fs =
     (case memory_json fs of
        None \<Rightarrow> (Inl (ReadMemoryError ENOENT), fs)
      | Some data \<Rightarrow>
          (case JSON_parse data of
             None \<Rightarrow> (Inl (ReadMemoryError SyntaxError), fs)
           | Some jsonData \<Rightarrow>
               (case MemorySchema_parse jsonData of
                  None \<Rightarrow> (Inl (ReadMemoryError ZodError), fs)
                | Some memoryData \<Rightarrow> (Inr memoryData, fs))))"

text \<open>\<^verbatim>\<open>writeMemory\<close>: validate \<^verbatim>\<open>newData\<close> (the result of the validation is dropped), then
  write \<^verbatim>\<open>JSON.stringify(newData, null, 2)\<close>. The argument is any value the caller passes:
  the static type \<^verbatim>\<open>MemoryData\<close> is not there at run time.\<close>

definition writeMemory :: "json \<Rightarrow> files \<Rightarrow> (error + unit) \<times> files" where
  "writeMemory newData fs =
     (case MemorySchema_parse newData of
        None \<Rightarrow> (Inl (WriteMemoryError ZodError), fs)
      | Some _ \<Rightarrow> (Inr (), fs_writeFile (JSON_stringify newData 2) fs))"

text \<open>The handler of the resource \<^verbatim>\<open>css_knowledge_memory\<close>: the URI is echoed, the text is
  \<^verbatim>\<open>JSON.stringify(memoryData)\<close>. The result is (uri, mimeType, text).\<close>

definition css_knowledge_memory :: "string \<Rightarrow> files \<Rightarrow> (error + string \<times> string \<times> string) \<times> files" where
  "css_knowledge_memory uri fs =
     (case readMemory fs of
        (Inl e, fs') \<Rightarrow> (Inl e, fs')
      | (Inr memoryData, fs') \<Rightarrow>
          (Inr (uri, ''application/json'', JSON_stringify (json_of_MemoryData memoryData) 0), fs'))"

section \<open>The memory tools (tools/index.ts)\<close>

text \<open>The handler of \<^verbatim>\<open>read_from_memory\<close>: the text is
  \<^verbatim>\<open>JSON.stringify(memoryData, null, 2)\<close>.\<close>

definition read_from_memory :: "files \<Rightarrow> (error + string) \<times> files" where
  "read_from_memory fs =
     (case readMemory fs of
        (Inl e, fs') \<Rightarrow> (Inl e, fs')
      | (Inr memoryData, fs') \<Rightarrow> (Inr (JSON_stringify (json_of_MemoryData memoryData) 2), fs'))"

text \<open>
  \<^verbatim>\<open>writeMemoryInputShape = { concept: z.string(), known: z.boolean() }\<close>, checked against the
  arguments of a call before the handler runs: \<open>None\<close> when the arguments do not fit.
\<close>

definition writeMemoryInputShape_parse :: "json \<Rightarrow> (string \<times> bool) option" where
  "writeMemoryInputShape_parse args =
     (case args of
        JObj ms \<Rightarrow>
          (case map_of ms ''concept'' of
             Some (JStr concept) \<Rightarrow>
               (case map_of ms ''known'' of
                  Some (JBool known) \<Rightarrow> Some (concept, known)
                | _ \<Rightarrow> None)
           | _ \<Rightarrow> None)
      | _ \<Rightarrow> None)"

text \<open>
  The handler of \<^verbatim>\<open>write_to_memory\<close>:
  \<^verbatim>\<open>{ ...currentMemory, known_concepts: { ...currentMemory.known_concepts, [concept]: known } }\<close>
  keeps every property of the document read and sets one entry of \<^verbatim>\<open>known_concepts\<close>: in
  place when the concept is there, as the last property otherwise.
\<close>

definition write_to_memory_handler :: "string \<Rightarrow> bool \<Rightarrow> files \<Rightarrow> (error + string) \<times> files" where
  "write_to_memory_handler concept known fs =
     (case readMemory fs of
        (Inl e, fs1) \<Rightarrow> (Inl e, fs1)
      | (Inr currentMemory, fs1) \<Rightarrow>
          (let updatedMemory =
                 currentMemory\<lparr>known_concepts :=
                   AList.update concept known (known_concepts currentMemory)\<rparr>
           in case writeMemory (json_of_MemoryData updatedMemory) fs1 of
                (Inl e, fs2) \<Rightarrow> (Inl e, fs2)
              | (Inr _, fs2) \<Rightarrow>
                  (Inr (''Memory updated successfully for concept: '' @ concept), fs2)))"

text \<open>An invocation of \<^verbatim>\<open>write_to_memory\<close> with raw arguments: the input shape first, then
  the handler.\<close>

definition write_to_memory :: "json \<Rightarrow> files \<Rightarrow> (error + string) \<times> files" where
  "write_to_memory args fs =
     (case writeMemoryInputShape_parse args of
        None \<Rightarrow> (Inl InvalidInput, fs)
      | Some (concept, known) \<Rightarrow> write_to_memory_handler concept known fs)"

section \<open>The external update tool (tools/index.ts)\<close>

text \<open>The provider's answer as \<^verbatim>\<open>fetch\<close> hands it over; \<^verbatim>\<open>response.ok\<close> holds for the
  statuses 200 to 299.\<close>

record response =
  status :: nat
  statusText :: string
  body :: string

definition ok :: "response \<Rightarrow> bool" where
  "ok r = (200 \<le> status r \<and> status r \<le> 299)"

text \<open>
  Property reads on a JSON value that is not \<^verbatim>\<open>null\<close>; \<open>None\<close> is \<^verbatim>\<open>undefined\<close>.
  \<open>member\<close> is \<^verbatim>\<open>v.name\<close> for the names the handler reads (\<^verbatim>\<open>choices\<close>, \<^verbatim>\<open>message\<close>,
  \<^verbatim>\<open>content\<close>: none of them is a property of arrays, strings, numbers or booleans);
  \<open>element0\<close> is \<^verbatim>\<open>v[0]\<close>.
\<close>

definition member :: "string \<Rightarrow> json \<Rightarrow> json option" where
  "member name v = (case v of JObj ms \<Rightarrow> map_of ms name | _ \<Rightarrow> None)"

definition element0 :: "json \<Rightarrow> json option" where
  "element0 v =
     (case v of
        JArr vs \<Rightarrow> (case vs of [] \<Rightarrow> None | x # _ \<Rightarrow> Some x)
      | JObj ms \<Rightarrow> map_of ms ''0''
      | JStr s \<Rightarrow> (case s of [] \<Rightarrow> None | c # _ \<Rightarrow> Some (JStr [c]))
      | _ \<Rightarrow> None)"

text \<open>\<^verbatim>\<open>a?.p\<close>: \<^verbatim>\<open>undefined\<close> when \<^verbatim>\<open>a\<close> is \<^verbatim>\<open>undefined\<close> or \<^verbatim>\<open>null\<close>, the property read
  otherwise.\<close>

definition optional_chain :: "(json \<Rightarrow> json option) \<Rightarrow> json option \<Rightarrow> json option" where
  "optional_chain p a = (case a of None \<Rightarrow> None | Some JNull \<Rightarrow> None | Some v \<Rightarrow> p v)"

text \<open>\<^verbatim>\<open>data.choices?.[0]?.message?.content\<close>: the first read is not optional and throws
  \<^verbatim>\<open>TypeError\<close> on \<^verbatim>\<open>null\<close>.\<close>

definition assistantMessage :: "json \<Rightarrow> js_error + json option" where
  "assistantMessage data =
     (case data of
        JNull \<Rightarrow> Inl TypeError
      | _ \<Rightarrow> Inr (optional_chain (member ''content'')
                 (optional_chain (member ''message'')
                   (optional_chain element0 (member ''choices'' data)))))"

text \<open>The number a literal denotes is zero when its mantissa has no digit but \<open>0\<close>.\<close>

definition number_is_zero :: "string \<Rightarrow> bool" where
  "number_is_zero lexeme =
     list_all (\<lambda>c. c = CHR ''0'' \<or> c = CHR ''-'' \<or> c = CHR ''.'')
       (takeWhile (\<lambda>c. c \<noteq> CHR ''e'' \<and> c \<noteq> CHR ''E'') lexeme)"

text \<open>\<^verbatim>\<open>!v\<close>: the values that count as false.\<close>

fun falsy :: "json option \<Rightarrow> bool" where
  "falsy None = True"
| "falsy (Some JNull) = True"
| "falsy (Some (JBool b)) = (\<not> b)"
| "falsy (Some (JNum n)) = number_is_zero n"
| "falsy (Some (JStr s)) = (s = [])"
| "falsy (Some (JArr vs)) = False"
| "falsy (Some (JObj ms)) = False"

text \<open>
  The handler of \<^verbatim>\<open>get_latest_updates\<close>, from the answer of the one request it sends
  (\<open>None\<close> when \<^verbatim>\<open>fetch\<close> rejects). The result is the value put into the \<^verbatim>\<open>text\<close> field.
\<close>

definition get_latest_updates :: "response option \<Rightarrow> error + json" where
  "get_latest_updates reply =
     (case reply of
        None \<Rightarrow> Inl (Rethrown FetchError)
      | Some response \<Rightarrow>
          if \<not> ok response
          then Inl (OpenRouterRequestFailed (status response) (statusText response) (body response))
          else
            (case JSON_parse (body response) of
               None \<Rightarrow> Inl (Rethrown SyntaxError)
             | Some data \<Rightarrow>
                 (case assistantMessage data of
                    Inl e \<Rightarrow> Inl (Rethrown e)
                  | Inr m \<Rightarrow>
                      if falsy m then Inl NoAssistantMessage
                      else (case m of
                              None \<Rightarrow> Inl NoAssistantMessage
                            | Some v \<Rightarrow> Inr v))))"

section \<open>The capability registry and the start of the server (index.ts)\<close>

text \<open>
  What the process is started with: the credential \<^verbatim>\<open>process.env.OPENROUTER_API_KEY\<close>
  (\<open>None\<close> when the variable is not set) and the text of \<^verbatim>\<open>css_updater_prompt.txt\<close>
  (\<open>None\<close> when \<^verbatim>\<open>fs.readFileSync\<close> throws).
\<close>

record config =
  OPENROUTER_API_KEY :: "string option"
  css_updater_prompt_txt :: "string option"

datatype kind = Guidance | Resource | Action

text \<open>The handlers that the source registers, with what each closure holds: the prompt
  text, the credential.\<close>

datatype handler =
    CssTutorGuidance string
  | CssKnowledgeMemory
  | ReadFromMemory
  | WriteToMemory
  | GetLatestUpdates string

type_synonym capability = "string \<times> kind \<times> handler"

datatype result =
    Messages string
  | Contents string string string
  | Content json

text \<open>
  Modelled from the spec: the registry behind \<^verbatim>\<open>server.prompt\<close>, \<^verbatim>\<open>server.resource\<close> and
  \<^verbatim>\<open>server.tool\<close> is the \<^verbatim>\<open>McpServer\<close> of the protocol SDK, which is not part of the
  source. As the specification words it: \<open>register\<close> fails with \<open>DuplicateCapability\<close> if
  the name is already registered; \<open>list\<close> returns the registered capabilities in
  registration order; \<open>invoke\<close> fails with \<open>UnknownCapability\<close> if no entry exists and
  otherwise calls the handler, propagating its result or failure unchanged.
\<close>

definition register :: "string \<Rightarrow> kind \<Rightarrow> handler \<Rightarrow> capability list \<Rightarrow> error + capability list" where
  "register name k h reg =
     (if name \<in> set (map fst reg) then Inl DuplicateCapability else Inr (reg @ [(name, k, h)]))"

definition list_capabilities :: "capability list \<Rightarrow> string list" where
  "list_capabilities reg = map fst reg"

text \<open>A handler at work: the input of a call, the provider's answer to the request the
  call may send, the files. A resource is called with its URI.\<close>

definition run_handler :: "handler \<Rightarrow> json \<Rightarrow> response option \<Rightarrow> files \<Rightarrow> (error + result) \<times> files" where
  "run_handler h input reply fs =
     (case h of
        CssTutorGuidance promptText \<Rightarrow> (Inr (Messages promptText), fs)
      | CssKnowledgeMemory \<Rightarrow>
          (case input of
             JStr uri \<Rightarrow>
               (case css_knowledge_memory uri fs of
                  (Inl e, fs') \<Rightarrow> (Inl e, fs')
                | (Inr (u, m, t), fs') \<Rightarrow> (Inr (Contents u m t), fs'))
           | _ \<Rightarrow> (Inl InvalidInput, fs))
      | ReadFromMemory \<Rightarrow>
          (case read_from_memory fs of
             (Inl e, fs') \<Rightarrow> (Inl e, fs')
           | (Inr t, fs') \<Rightarrow> (Inr (Content (JStr t)), fs'))
      | WriteToMemory \<Rightarrow>
          (case write_to_memory input fs of
             (Inl e, fs') \<Rightarrow> (Inl e, fs')
           | (Inr t, fs') \<Rightarrow> (Inr (Content (JStr t)), fs'))
      | GetLatestUpdates key \<Rightarrow>
          (case get_latest_updates reply of
             Inl e \<Rightarrow> (Inl e, fs)
           | Inr v \<Rightarrow> (Inr (Content v), fs)))"

definition invoke :: "capability list \<Rightarrow> string \<Rightarrow> json \<Rightarrow> response option \<Rightarrow> files \<Rightarrow> (error + result) \<times> files" where
  "invoke reg name input reply fs =
     (case map_of reg name of
        None \<Rightarrow> (Inl UnknownCapability, fs)
      | Some (k, h) \<Rightarrow> run_handler h input reply fs)"

text \<open>\<^verbatim>\<open>registerCssTutorPrompt\<close> (prompts/index.ts): the file is read and the prompt
  registered inside one \<^verbatim>\<open>try\<close>; the \<^verbatim>\<open>catch\<close> logs and goes on.\<close>

definition registerCssTutorPrompt :: "config \<Rightarrow> capability list \<Rightarrow> capability list" where
  "registerCssTutorPrompt cfg reg =
     (case css_updater_prompt_txt cfg of
        None \<Rightarrow> reg
      | Some promptText \<Rightarrow>
          (case register ''css-tutor-guidance'' Guidance (CssTutorGuidance promptText) reg of
             Inl e \<Rightarrow> reg
           | Inr reg' \<Rightarrow> reg'))"

definition registerPrompts :: "config \<Rightarrow> capability list \<Rightarrow> capability list" where
  "registerPrompts cfg reg = registerCssTutorPrompt cfg reg"

definition registerCssKnowledgeMemoryResource :: "capability list \<Rightarrow> error + capability list" where
  "registerCssKnowledgeMemoryResource reg =
     register ''css_knowledge_memory'' Resource CssKnowledgeMemory reg"

definition registerResources :: "capability list \<Rightarrow> error + capability list" where
  "registerResources reg = registerCssKnowledgeMemoryResource reg"

definition registerReadFromMemoryTool :: "capability list \<Rightarrow> error + capability list" where
  "registerReadFromMemoryTool reg = register ''read_from_memory'' Action ReadFromMemory reg"

definition registerWriteToMemoryTool :: "capability list \<Rightarrow> error + capability list" where
  "registerWriteToMemoryTool reg = register ''write_to_memory'' Action WriteToMemory reg"

text \<open>\<^verbatim>\<open>if (!openRouterApiKey) { console.warn(...); return; }\<close>: a credential that is not set,
  or is the empty string, leaves the tool out.\<close>

definition registerGetLatestUpdatesTool :: "config \<Rightarrow> capability list \<Rightarrow> error + capability list" where
  "registerGetLatestUpdatesTool cfg reg =
     (case OPENROUTER_API_KEY cfg of
        None \<Rightarrow> Inr reg
      | Some openRouterApiKey \<Rightarrow>
          if openRouterApiKey = [] then Inr reg
          else register ''get_latest_updates'' Action (GetLatestUpdates openRouterApiKey) reg)"

definition registerTools :: "config \<Rightarrow> capability list \<Rightarrow> error + capability list" where
  "registerTools cfg reg =
     (case registerReadFromMemoryTool reg of
        Inl e \<Rightarrow> Inl e
      | Inr reg1 \<Rightarrow>
          (case registerWriteToMemoryTool reg1 of
             Inl e \<Rightarrow> Inl e
           | Inr reg2 \<Rightarrow> registerGetLatestUpdatesTool cfg reg2))"

text \<open>index.ts: a new server, then \<^verbatim>\<open>registerPrompts(); registerResources();
  registerTools();\<close>. An exception here ends the start.\<close>

definition server :: "config \<Rightarrow> error + capability list" where
  "server cfg =
     (case registerResources (registerPrompts cfg []) of
        Inl e \<Rightarrow> Inl e
      | Inr reg \<Rightarrow> registerTools cfg reg)"

section \<open>Objects without repeated property names\<close>

text \<open>A JavaScript object has each property name once. In the list representation: the
  names of every object inside a value are distinct.\<close>

fun distinct_keys :: "json \<Rightarrow> bool"
  and distinct_keys_elements :: "json list \<Rightarrow> bool"
  and distinct_keys_members :: "(string \<times> json) list \<Rightarrow> bool"
where
  "distinct_keys (JObj ms) = (distinct (map fst ms) \<and> distinct_keys_members ms)"
| "distinct_keys (JArr vs) = distinct_keys_elements vs"
| "distinct_keys JNull = True"
| "distinct_keys (JBool b) = True"
| "distinct_keys (JNum n) = True"
| "distinct_keys (JStr s) = True"
| "distinct_keys_elements [] = True"
| "distinct_keys_elements (v # vs) = (distinct_keys v \<and> distinct_keys_elements vs)"
| "distinct_keys_members [] = True"
| "distinct_keys_members ((k, v) # ms) = (distinct_keys v \<and> distinct_keys_members ms)"

section \<open>The bound of JSON.parse is enough\<close>

lemma length_skip_ws: "length (skip_ws s) \<le> length s"
  by (simp add: skip_ws_def length_dropWhile_le)

lemma skip_ws_Cons_length: "skip_ws s = c # r \<Longrightarrow> length r < length s"
  using length_skip_ws[of s] by simp

lemma parse_string_length: "parse_string s = Some (x, r) \<Longrightarrow> length r \<le> length s"
proof (induction s arbitrary: x r rule: parse_string.induct)
  case 1
  then show ?case by simp
next
  case (2 c cs)
  then show ?case
    by (auto split: if_splits list.splits option.splits) fastforce+
qed

lemma digits1_length: "digits1 s = Some (x, r) \<Longrightarrow> length r \<le> length s"
  by (auto simp: digits1_def length_dropWhile_le split: if_splits)

lemma parse_number_length: "parse_number s = Some (x, r) \<Longrightarrow> length r \<le> length s"
  by (auto simp: parse_number_def parse_int_part_def parse_frac_def parse_exp_def Let_def
      split: list.splits if_splits option.splits prod.splits dest!: digits1_length)

lemma parse_literal_length: "parse_literal lit v s = Some (x, r) \<Longrightarrow> length r \<le> length s"
  by (auto simp: parse_literal_def split: if_splits)

lemma parse_length_aux:
  "(\<forall>s v r. parse_value n s = Some (v, r) \<longrightarrow> length r \<le> length s) \<and>
   (\<forall>s vs r. parse_elements n s = Some (vs, r) \<longrightarrow> length r \<le> length s) \<and>
   (\<forall>s ms r. parse_members n s = Some (ms, r) \<longrightarrow> length r \<le> length s)"
proof (induction n)
  case 0
  show ?case by simp
next
  case (Suc n)
  then have iv: "\<And>s v r. parse_value n s = Some (v, r) \<Longrightarrow> length r \<le> length s"
    and ie: "\<And>s vs r. parse_elements n s = Some (vs, r) \<Longrightarrow> length r \<le> length s"
    and im: "\<And>s ms r. parse_members n s = Some (ms, r) \<Longrightarrow> length r \<le> length s"
    by blast+
  have v: "length r \<le> length s" if "parse_value (Suc n) s = Some (v, r)" for s v r
  proof (cases "skip_ws s")
    case Nil
    with that show ?thesis by simp
  next
    case (Cons c cs)
    have cs: "length cs < length s" by (rule skip_ws_Cons_length[OF Cons])
    have "length r \<le> length (c # cs)"
      using that Cons
      by (auto split: if_splits list.splits option.splits
          dest!: ie im parse_string_length parse_number_length parse_literal_length
                 skip_ws_Cons_length)
    with cs show ?thesis by simp
  qed
  have e: "length r \<le> length s" if "parse_elements (Suc n) s = Some (vs, r)" for s vs r
    using that
    by (auto split: if_splits list.splits option.splits dest!: iv ie skip_ws_Cons_length)
  have m: "length r \<le> length s" if "parse_members (Suc n) s = Some (ms, r)" for s ms r
    using that
    by (auto split: if_splits list.splits option.splits
        dest!: iv im skip_ws_Cons_length parse_string_length)
  from v e m show ?case by blast
qed

lemma parse_value_length: "parse_value n s = Some (v, r) \<Longrightarrow> length r \<le> length s"
  using parse_length_aux[of n] by blast

lemma parse_elements_length: "parse_elements n s = Some (vs, r) \<Longrightarrow> length r \<le> length s"
  using parse_length_aux[of n] by blast

lemma parse_members_length: "parse_members n s = Some (ms, r) \<Longrightarrow> length r \<le> length s"
  using parse_length_aux[of n] by blast

lemma parse_fuel_aux:
  "(\<forall>s. 2 * length s < n \<longrightarrow> parse_value (Suc n) s = parse_value n s) \<and>
   (\<forall>s. 2 * length s + 1 < n \<longrightarrow> parse_elements (Suc n) s = parse_elements n s) \<and>
   (\<forall>s. 2 * length s + 1 < n \<longrightarrow> parse_members (Suc n) s = parse_members n s)"
proof (induction n)
  case 0
  show ?case by simp
next
  case (Suc n)
  then have iv: "\<And>s. 2 * length s < n \<Longrightarrow> parse_value (Suc n) s = parse_value n s"
    and ie: "\<And>s. 2 * length s + 1 < n \<Longrightarrow> parse_elements (Suc n) s = parse_elements n s"
    and im: "\<And>s. 2 * length s + 1 < n \<Longrightarrow> parse_members (Suc n) s = parse_members n s"
    by blast+
  have v: "parse_value (Suc (Suc n)) s = parse_value (Suc n) s" if "2 * length s < Suc n" for s
  proof (cases "skip_ws s")
    case Nil
    then show ?thesis by simp
  next
    case (Cons c cs)
    have "length cs < length s" by (rule skip_ws_Cons_length[OF Cons])
    with that have b: "2 * length cs + 1 < n" by simp
    show ?thesis
      unfolding parse_value.simps(2)[of "Suc n" s] parse_value.simps(2)[of n s] Cons list.case
        ie[OF b] im[OF b]
      by (rule refl)
  qed
  have e: "parse_elements (Suc (Suc n)) s = parse_elements (Suc n) s"
    if "2 * length s + 1 < Suc n" for s
  proof -
    from that have a: "parse_value (Suc n) s = parse_value n s"
      by (intro iv) simp
    show ?thesis
    proof (cases "parse_value n s")
      case None
      then show ?thesis
        unfolding parse_elements.simps(2)[of "Suc n" s] parse_elements.simps(2)[of n s] a
        by simp
    next
      case (Some p)
      obtain x r where p: "p = (x, r)" by (cases p)
      have r: "length r \<le> length s"
        using Some p by (auto dest: parse_value_length)
      show ?thesis
      proof (cases "skip_ws r")
        case Nil
        then show ?thesis
          unfolding parse_elements.simps(2)[of "Suc n" s] parse_elements.simps(2)[of n s] a
          by (simp add: Some p)
      next
        case (Cons c r')
        have "length r' < length r" by (rule skip_ws_Cons_length[OF Cons])
        with r that have "2 * length r' + 1 < n" by simp
        then have b: "parse_elements (Suc n) r' = parse_elements n r'" by (rule ie)
        show ?thesis
          unfolding parse_elements.simps(2)[of "Suc n" s] parse_elements.simps(2)[of n s] a
          by (simp add: Some p Cons b del: parse_elements.simps)
      qed
    qed
  qed
  have m: "parse_members (Suc (Suc n)) s = parse_members (Suc n) s"
    if "2 * length s + 1 < Suc n" for s
  proof (cases "skip_ws s")
    case Nil
    then show ?thesis by simp
  next
    case s1: (Cons q s1)
    have l1: "length s1 < length s" by (rule skip_ws_Cons_length[OF s1])
    show ?thesis
    proof (cases "parse_string s1")
      case None
      then show ?thesis by (simp add: s1)
    next
      case (Some p)
      obtain k s2 where p: "p = (k, s2)" by (cases p)
      have l2: "length s2 \<le> length s1"
        using Some p by (auto dest: parse_string_length)
      show ?thesis
      proof (cases "skip_ws s2")
        case Nil
        then show ?thesis by (simp add: s1 Some p)
      next
        case s3: (Cons c s3)
        have l3: "length s3 < length s2" by (rule skip_ws_Cons_length[OF s3])
        from l1 l2 l3 that have "2 * length s3 < n" by simp
        then have a: "parse_value (Suc n) s3 = parse_value n s3" by (rule iv)
        show ?thesis
        proof (cases "parse_value n s3")
          case None
          then show ?thesis
            unfolding parse_members.simps(2)[of "Suc n" s] parse_members.simps(2)[of n s]
            by (simp add: s1 Some p s3 a del: parse_value.simps)
        next
          case v: (Some pv)
          obtain x s4 where pv: "pv = (x, s4)" by (cases pv)
          have l4: "length s4 \<le> length s3"
            using v pv by (auto dest: parse_value_length)
          show ?thesis
          proof (cases "skip_ws s4")
            case Nil
            then show ?thesis
              unfolding parse_members.simps(2)[of "Suc n" s] parse_members.simps(2)[of n s]
              by (simp add: s1 Some p s3 a v pv del: parse_value.simps)
          next
            case s5: (Cons d s5)
            have "length s5 < length s4" by (rule skip_ws_Cons_length[OF s5])
            with l1 l2 l3 l4 that have "2 * length s5 + 1 < n" by simp
            then have b: "parse_members (Suc n) s5 = parse_members n s5" by (rule im)
            show ?thesis
              unfolding parse_members.simps(2)[of "Suc n" s] parse_members.simps(2)[of n s]
              by (simp add: s1 Some p s3 a v pv s5 b del: parse_value.simps parse_members.simps)
          qed
        qed
      qed
    qed
  qed
  from v e m show ?case by blast
qed

lemma parse_value_fuel:
  assumes "2 * length s < n"
  shows "parse_value (n + k) s = parse_value n s"
proof (induction k)
  case 0
  show ?case by simp
next
  case (Suc k)
  have "2 * length s < n + k" using assms by simp
  then have "parse_value (Suc (n + k)) s = parse_value (n + k) s"
    using parse_fuel_aux[of "n + k"] by blast
  with Suc show ?case by simp
qed

lemma JSON_parse_fuel:
  assumes "2 * length text < n"
  shows "parse_value n text = parse_value (Suc (2 * length text)) text"
proof -
  have "parse_value (Suc (2 * length text) + (n - Suc (2 * length text))) text
      = parse_value (Suc (2 * length text)) text"
    by (rule parse_value_fuel) simp
  then show ?thesis using assms by simp
qed

section \<open>Reading back what JSON.stringify writes\<close>

lemma hex_value_hex_digit: "n < 16 \<Longrightarrow> hex_value (hex_digit n) = Some n"
  by (auto simp: hex_value_def hex_digit_def Let_def)

lemma unicode_escape_control:
  assumes "(of_char c :: nat) < 32"
  shows "unicode_escape (CHR ''0'') (CHR ''0'')
           (hex_digit (of_char c div 16)) (hex_digit (of_char c mod 16)) = Some c"
proof -
  have hi: "hex_value (hex_digit (of_char c div 16)) = Some (of_char c div 16)"
    using assms by (intro hex_value_hex_digit) simp
  have lo: "hex_value (hex_digit (of_char c mod 16)) = Some (of_char c mod 16)"
    by (intro hex_value_hex_digit) simp
  have zero: "hex_value (CHR ''0'') = Some 0"
    by (simp add: hex_value_def)
  show ?thesis
    by (simp add: unicode_escape_def hi lo zero)
qed

lemma parse_string_QuoteJSONChar:
  "parse_string (QuoteJSONChar c @ t) =
     (case parse_string t of None \<Rightarrow> None | Some (s, rest) \<Rightarrow> Some (c # s, rest))"
proof (cases "(of_char c :: nat) < 32")
  case True
  then show ?thesis
    by (auto simp: QuoteJSONChar_def simple_escape_def unicode_escape_control)
next
  case False
  then show ?thesis
    by (auto simp: QuoteJSONChar_def simple_escape_def)
qed

lemma parse_string_quoted:
  "parse_string (concat (map QuoteJSONChar s) @ CHR 0x22 # rest) = Some (s, rest)"
  by (induction s) (simp_all add: parse_string_QuoteJSONChar)

lemma skip_ws_append:
  "list_all is_ws ws \<Longrightarrow> \<not> is_ws c \<Longrightarrow> skip_ws (ws @ c # t) = c # t"
  by (induction ws) (simp_all add: skip_ws_def)

lemma is_ws_line_break: "list_all is_ws (line_break g i)"
  by (simp add: line_break_def is_ws_def list_all_iff)

lemma is_ws_blank: "list_all is_ws (if g = 0 then [] else '' '')"
  by (simp add: is_ws_def)

lemma parse_value_boolean:
  assumes "list_all is_ws V"
  shows "parse_value (Suc n) (V @ SerializeJSONProperty g i (JBool b) @ r) = Some (JBool b, r)"
proof (cases b)
  case True
  have "skip_ws (V @ CHR ''t'' # ''rue'' @ r) = CHR ''t'' # ''rue'' @ r"
    by (rule skip_ws_append[OF assms]) (simp add: is_ws_def)
  then show ?thesis using True by (simp add: parse_literal_def)
next
  case False
  have "skip_ws (V @ CHR ''f'' # ''alse'' @ r) = CHR ''f'' # ''alse'' @ r"
    by (rule skip_ws_append[OF assms]) (simp add: is_ws_def)
  then show ?thesis using False by (simp add: parse_literal_def)
qed

lemma skip_ws_quoted:
  assumes "list_all is_ws V"
  shows "skip_ws (V @ QuoteJSONString s @ r) = CHR 0x22 # concat (map QuoteJSONChar s) @ CHR 0x22 # r"
  using skip_ws_append[OF assms, of "CHR 0x22"] by (simp add: QuoteJSONString_def is_ws_def)

lemma parse_value_string:
  assumes "list_all is_ws V"
  shows "parse_value (Suc n) (V @ QuoteJSONString s @ r) = Some (JStr s, r)"
  by (simp add: skip_ws_quoted[OF assms] parse_string_quoted)

lemma parse_value_empty_object:
  assumes "list_all is_ws V"
  shows "parse_value (Suc n) (V @ CHR ''{'' # CHR ''}'' # r) = Some (JObj [], r)"
proof -
  have "skip_ws (V @ CHR ''{'' # CHR ''}'' # r) = CHR ''{'' # CHR ''}'' # r"
    by (rule skip_ws_append[OF assms]) (simp add: is_ws_def)
  then show ?thesis by (simp add: skip_ws_def is_ws_def)
qed

lemma parse_value_object_open:
  assumes "list_all is_ws V" "list_all is_ws W"
  shows "parse_value (Suc n) (V @ CHR ''{'' # W @ QuoteJSONString k @ t) =
     (case parse_members n (W @ QuoteJSONString k @ t) of
        None \<Rightarrow> None
      | Some (ms, r) \<Rightarrow> Some (JObj (object_of_members ms), r))"
proof -
  have "skip_ws (V @ CHR ''{'' # W @ QuoteJSONString k @ t) = CHR ''{'' # W @ QuoteJSONString k @ t"
    by (rule skip_ws_append[OF assms(1)]) (simp add: is_ws_def)
  then show ?thesis
    by (simp add: skip_ws_quoted[OF assms(2)])
qed

lemma parse_members_step:
  assumes "list_all is_ws W"
  shows "parse_members (Suc n) (W @ QuoteJSONString k @ CHR '':'' # t) =
     (case parse_value n t of
        None \<Rightarrow> None
      | Some (v, s4) \<Rightarrow>
          (case skip_ws s4 of
             [] \<Rightarrow> None
           | d # s5 \<Rightarrow>
               if d = CHR '','' then
                 (case parse_members n s5 of
                    None \<Rightarrow> None
                  | Some (ms, s6) \<Rightarrow> Some ((k, v) # ms, s6))
               else if d = CHR ''}'' then Some ([(k, v)], s5)
               else None))"
proof -
  have "skip_ws (CHR '':'' # t) = CHR '':'' # t"
    by (simp add: skip_ws_def is_ws_def)
  then show ?thesis
    by (simp add: skip_ws_quoted[OF assms] parse_string_quoted del: parse_value.simps)
qed

lemma join_Cons: "xs \<noteq> [] \<Longrightarrow> join sep (x # xs) = x @ sep @ join sep xs"
  by (cases xs) simp_all

lemma parse_members_booleans:
  assumes "list_all is_ws W" "list_all is_ws U" "kc \<noteq> []"
  shows "length kc < n \<Longrightarrow>
     parse_members n (W @ join (CHR '','' # W)
          (SerializeJSONMembers g i (map (\<lambda>(k, b). (k, JBool b)) kc)) @ U @ CHR ''}'' # rest)
       = Some (map (\<lambda>(k, b). (k, JBool b)) kc, rest)"
  using assms(3)
proof (induction kc arbitrary: n rule: list_nonempty_induct)
  case (single x)
  obtain k b where x: "x = (k, b)" by (cases x)
  from single obtain m where n: "n = Suc (Suc m)"
    by (cases n; simp; (cases "n - 1"; simp))
  have close: "skip_ws (U @ CHR ''}'' # rest) = CHR ''}'' # rest"
    by (rule skip_ws_append[OF assms(2)]) (simp add: is_ws_def)
  have "parse_members (Suc (Suc m)) (W @ QuoteJSONString k @ CHR '':'' #
          (if g = 0 then [] else '' '') @ SerializeJSONProperty g i (JBool b) @ U @ CHR ''}'' # rest)
      = Some ([(k, JBool b)], rest)"
    unfolding parse_members_step[OF assms(1)] parse_value_boolean[OF is_ws_blank]
    by (simp add: close)
  then show ?case
    unfolding x n by simp
next
  case (cons x xs)
  obtain k b where x: "x = (k, b)" by (cases x)
  from cons.prems cons.hyps obtain m where n: "n = Suc (Suc m)"
    by (cases n; simp; (cases "n - 1"; simp))
  have len: "length xs < Suc m" using cons.prems n by simp
  have ne: "SerializeJSONMembers g i (map (\<lambda>(k, b). (k, JBool b)) xs) \<noteq> []"
    using cons.hyps by (cases xs) auto
  have comma: "skip_ws (CHR '','' # t) = CHR '','' # t" for t
    by (simp add: skip_ws_def is_ws_def)
  define tail where "tail = W @ join (CHR '','' # W)
      (SerializeJSONMembers g i (map (\<lambda>(k, b). (k, JBool b)) xs)) @ U @ CHR ''}'' # rest"
  have IH: "parse_members (Suc m) tail = Some (map (\<lambda>(k, b). (k, JBool b)) xs, rest)"
    unfolding tail_def by (rule cons.IH[OF len])
  have "parse_members (Suc (Suc m)) (W @ QuoteJSONString k @ CHR '':'' #
          (if g = 0 then [] else '' '') @ SerializeJSONProperty g i (JBool b) @ CHR '','' # tail)
      = Some ((k, JBool b) # map (\<lambda>(k, b). (k, JBool b)) xs, rest)"
    unfolding parse_members_step[OF assms(1)] parse_value_boolean[OF is_ws_blank]
    by (simp add: comma IH del: parse_members.simps)
  then show ?case
    unfolding x n tail_def by (simp add: join_Cons ne)
qed

lemma foldl_update_distinct:
  "distinct (map fst (acc @ ms)) \<Longrightarrow>
     foldl (\<lambda>obj (k, v). AList.update k v obj) acc ms = acc @ ms"
proof (induction ms arbitrary: acc)
  case Nil
  then show ?case by simp
next
  case (Cons m ms)
  obtain k v where m: "m = (k, v)" by (cases m)
  have "k \<notin> fst ` set acc" using Cons.prems m by auto
  then have u: "AList.update k v acc = acc @ [(k, v)]"
    by (induction acc) auto
  have "distinct (map fst ((acc @ [(k, v)]) @ ms))" using Cons.prems m by simp
  from Cons.IH[OF this] show ?case by (simp add: m u)
qed

lemma object_of_members_distinct:
  "distinct (map fst ms) \<Longrightarrow> object_of_members ms = ms"
  using foldl_update_distinct[of "[]" ms] by (simp add: object_of_members_def)

lemma map_fst_json_of: "map fst (map (\<lambda>(k, b). (k, JBool b)) kc) = map fst kc"
  by (induction kc) auto

lemma parse_value_known_concepts:
  assumes "list_all is_ws V" "distinct (map fst kc)" "Suc (length kc) < n"
  shows "parse_value n (V @ SerializeJSONProperty g i (json_of_known_concepts kc) @ r)
           = Some (json_of_known_concepts kc, r)"
proof (cases "kc = []")
  case True
  from assms(3) obtain m where "n = Suc m" by (cases n) auto
  then show ?thesis
    using True parse_value_empty_object[OF assms(1), of m r]
    by (simp add: json_of_known_concepts_def)
next
  case False
  from assms(3) obtain m where n: "n = Suc m" and m: "length kc < m" by (cases n) auto
  define ms where "ms = map (\<lambda>(k, b). (k, JBool b)) kc"
  have d: "distinct (map fst ms)"
    unfolding ms_def map_fst_json_of by (rule assms(2))
  define W where "W = line_break g (i + g)"
  define U where "U = line_break g i"
  have W: "list_all is_ws W" and U: "list_all is_ws U"
    by (simp_all add: W_def U_def is_ws_line_break)
  obtain k b xs where kc: "kc = (k, b) # xs" using False by (cases kc) auto
  define body where "body = join (CHR '','' # W) (SerializeJSONMembers g (i + g) ms) @ U @ CHR ''}'' # r"
  have shape: "V @ SerializeJSONProperty g i (json_of_known_concepts kc) @ r = V @ CHR ''{'' # W @ body"
    using False by (simp add: json_of_known_concepts_def W_def U_def ms_def body_def)
  obtain t where body_head: "body = QuoteJSONString k @ t"
    unfolding body_def ms_def kc by (cases xs) auto
  have members: "parse_members m (W @ body) = Some (ms, r)"
    unfolding body_def ms_def by (rule parse_members_booleans[OF W U False m])
  have "parse_value (Suc m) (V @ CHR ''{'' # W @ QuoteJSONString k @ t) = Some (JObj ms, r)"
    unfolding parse_value_object_open[OF assms(1) W]
    using members by (simp add: body_head object_of_members_distinct[OF d])
  then show ?thesis
    unfolding shape n body_head by (simp add: json_of_known_concepts_def ms_def)
qed

lemma MemoryData_text:
  "SerializeJSONProperty g 0 (json_of_MemoryData d) =
     CHR ''{'' # line_break g g @ QuoteJSONString ''user_id''
       @ CHR '':'' # (if g = 0 then [] else '' '') @ QuoteJSONString (user_id d)
       @ CHR '','' # line_break g g @ QuoteJSONString ''known_concepts''
       @ CHR '':'' # (if g = 0 then [] else '' '')
       @ SerializeJSONProperty g g (json_of_known_concepts (known_concepts d))
       @ line_break g 0 @ ''}''"
  by (simp add: json_of_MemoryData_def)

lemma parse_value_MemoryData:
  assumes "distinct (map fst (known_concepts d))" "length (known_concepts d) + 3 < n"
  shows "parse_value (Suc n) (SerializeJSONProperty g 0 (json_of_MemoryData d) @ r)
           = Some (json_of_MemoryData d, r)"
proof -
  from assms(2) obtain m where n: "n = Suc (Suc m)" and m: "Suc (length (known_concepts d)) < m"
    by (cases n; simp; (cases "n - 1"; simp))
  define W where "W = line_break g g"
  define V where "V = (if g = 0 then [] else '' '')"
  define U where "U = line_break g 0"
  have W: "list_all is_ws W" and V: "list_all is_ws V" and U: "list_all is_ws U"
    by (simp_all add: W_def V_def U_def is_ws_line_break is_ws_def)
  define kcj where "kcj = json_of_known_concepts (known_concepts d)"
  define T3 where "T3 = V @ SerializeJSONProperty g g kcj @ U @ CHR ''}'' # r"
  define T2 where "T2 = W @ QuoteJSONString ''known_concepts'' @ CHR '':'' # T3"
  define T1 where "T1 = V @ QuoteJSONString (user_id d) @ CHR '','' # T2"
  have shape: "SerializeJSONProperty g 0 (json_of_MemoryData d) @ r
      = [] @ CHR ''{'' # W @ QuoteJSONString ''user_id'' @ CHR '':'' # T1"
    unfolding MemoryData_text T1_def T2_def T3_def W_def V_def U_def kcj_def by simp
  have p3: "parse_value m T3 = Some (kcj, U @ CHR ''}'' # r)"
    unfolding T3_def kcj_def by (rule parse_value_known_concepts[OF V assms(1) m])
  have s3: "skip_ws (U @ CHR ''}'' # r) = CHR ''}'' # r"
    by (rule skip_ws_append[OF U]) (simp add: is_ws_def)
  have m2: "parse_members (Suc m) T2 = Some ([(''known_concepts'', kcj)], r)"
    unfolding T2_def parse_members_step[OF W] by (simp add: p3 s3)
  have p1: "parse_value (Suc m) T1 = Some (JStr (user_id d), CHR '','' # T2)"
    unfolding T1_def by (rule parse_value_string[OF V])
  have s1: "skip_ws (CHR '','' # T2) = CHR '','' # T2"
    by (simp add: skip_ws_def is_ws_def)
  have m1: "parse_members (Suc (Suc m)) (W @ QuoteJSONString ''user_id'' @ CHR '':'' # T1)
      = Some ([(''user_id'', JStr (user_id d)), (''known_concepts'', kcj)], r)"
    unfolding parse_members_step[OF W]
    by (simp add: p1 s1 m2 del: parse_value.simps parse_members.simps)
  have ob: "object_of_members [(''user_id'', a), (''known_concepts'', b)]
      = [(''user_id'', a), (''known_concepts'', b)]" for a b
    by (simp add: object_of_members_def)
  have e: "list_all is_ws []" by simp
  show ?thesis
    unfolding shape n parse_value_object_open[OF e W]
    by (simp add: m1 ob json_of_MemoryData_def kcj_def del: parse_members.simps parse_value.simps)
qed

lemma length_join_members:
  "length ms \<le> length (join sep (SerializeJSONMembers g i ms))"
proof (induction ms rule: induct_list012)
  case 1
  then show ?case by simp
next
  case (2 x)
  then show ?case by (cases x) (simp add: QuoteJSONString_def)
next
  case (3 x y zs)
  then show ?case by (cases x; cases y) (simp add: QuoteJSONString_def)
qed

lemma length_MemoryData_text:
  "length (known_concepts d) + 3 < length (SerializeJSONProperty g 0 (json_of_MemoryData d))"
proof -
  have "length (known_concepts d)
      \<le> length (SerializeJSONProperty g g (json_of_known_concepts (known_concepts d)))"
    using length_join_members[of "map (\<lambda>(k, b). (k, JBool b)) (known_concepts d)"
        "'','' @ line_break g (g + g)" g "g + g"]
    by (simp add: json_of_known_concepts_def)
  then show ?thesis
    unfolding MemoryData_text by simp
qed

lemma JSON_parse_stringify_MemoryData:
  assumes "distinct (map fst (known_concepts d))"
  shows "JSON_parse (JSON_stringify (json_of_MemoryData d) space) = Some (json_of_MemoryData d)"
proof -
  define t where "t = SerializeJSONProperty (min space 10) 0 (json_of_MemoryData d)"
  have "length (known_concepts d) + 3 < 2 * length t"
    using length_MemoryData_text[of d "min space 10"] by (simp add: t_def)
  from parse_value_MemoryData[OF assms this, where r = "[]" and g = "min space 10"]
  show ?thesis
    by (simp add: JSON_parse_def JSON_stringify_def skip_ws_def t_def)
qed

section \<open>What JSON.parse returns has no repeated property names\<close>

lemma distinct_keys_members_update:
  "distinct_keys v \<Longrightarrow> distinct_keys_members obj \<Longrightarrow> distinct_keys_members (AList.update k v obj)"
  by (induction obj) auto

lemma foldl_update_keys:
  "distinct (map fst acc) \<Longrightarrow> distinct_keys_members acc \<Longrightarrow> distinct_keys_members ms \<Longrightarrow>
     distinct (map fst (foldl (\<lambda>obj (k, v). AList.update k v obj) acc ms))
     \<and> distinct_keys_members (foldl (\<lambda>obj (k, v). AList.update k v obj) acc ms)"
proof (induction ms arbitrary: acc)
  case Nil
  then show ?case by simp
next
  case (Cons m ms)
  obtain k v where m: "m = (k, v)" by (cases m)
  have "distinct (map fst (AList.update k v acc))"
    using Cons.prems(1) by (rule distinct_update)
  moreover have "distinct_keys_members (AList.update k v acc)"
    using Cons.prems(2,3) m by (simp add: distinct_keys_members_update)
  moreover have "distinct_keys_members ms" using Cons.prems(3) m by simp
  ultimately show ?case using Cons.IH[of "AList.update k v acc"] m by simp
qed

lemma foldl_update_distinct_keys:
  "distinct (map fst acc) \<Longrightarrow>
     distinct (map fst (foldl (\<lambda>obj (k, v). AList.update k v obj) acc ms))"
  by (induction ms arbitrary: acc) (auto simp: distinct_update)

lemma distinct_object_of_members: "distinct (map fst (object_of_members ms))"
  by (simp add: object_of_members_def foldl_update_distinct_keys)

lemma distinct_keys_object_of_members:
  "distinct_keys_members ms \<Longrightarrow> distinct_keys_members (object_of_members ms)"
  using foldl_update_keys[of "[]" ms] by (simp add: object_of_members_def)

lemma parse_distinct_keys_aux:
  "(\<forall>s v r. parse_value n s = Some (v, r) \<longrightarrow> distinct_keys v) \<and>
   (\<forall>s vs r. parse_elements n s = Some (vs, r) \<longrightarrow> distinct_keys_elements vs) \<and>
   (\<forall>s ms r. parse_members n s = Some (ms, r) \<longrightarrow> distinct_keys_members ms)"
proof (induction n)
  case 0
  show ?case by simp
next
  case (Suc n)
  then have iv: "\<And>s v r. parse_value n s = Some (v, r) \<Longrightarrow> distinct_keys v"
    and ie: "\<And>s vs r. parse_elements n s = Some (vs, r) \<Longrightarrow> distinct_keys_elements vs"
    and im: "\<And>s ms r. parse_members n s = Some (ms, r) \<Longrightarrow> distinct_keys_members ms"
    by blast+
  have imo: "\<And>s ms r. parse_members n s = Some (ms, r) \<Longrightarrow>
      distinct_keys_members (object_of_members ms)"
    by (rule distinct_keys_object_of_members) (rule im)
  have v: "distinct_keys v" if "parse_value (Suc n) s = Some (v, r)" for s v r
    using that
    by (auto simp: parse_literal_def distinct_object_of_members
        intro!: imo ie
        split: list.splits option.splits if_splits)
  have e: "distinct_keys_elements vs" if "parse_elements (Suc n) s = Some (vs, r)" for s vs r
    using that
    by (auto split: list.splits option.splits if_splits) (blast dest: iv ie)+
  have m: "distinct_keys_members ms" if "parse_members (Suc n) s = Some (ms, r)" for s ms r
    using that
    by (auto split: list.splits option.splits if_splits) (blast dest: iv im)+
  from v e m show ?case by blast
qed

lemma parse_value_distinct_keys: "parse_value n s = Some (v, r) \<Longrightarrow> distinct_keys v"
  using parse_distinct_keys_aux[of n] by blast

lemma JSON_parse_distinct_keys: "JSON_parse t = Some v \<Longrightarrow> distinct_keys v"
  unfolding JSON_parse_def
  by (auto dest: parse_value_distinct_keys split: option.splits if_splits simp del: parse_value.simps)

lemma record_boolean_parse_json:
  "record_boolean_parse kc = Some r \<Longrightarrow> kc = map (\<lambda>(k, b). (k, JBool b)) r"
  by (induction kc arbitrary: r rule: record_boolean_parse.induct)
     (auto split: json.splits option.splits)

lemma record_boolean_parse_json_of:
  "record_boolean_parse (map (\<lambda>(k, b). (k, JBool b)) r) = Some r"
  by (induction r) auto

lemma distinct_keys_members_lookup:
  "distinct_keys_members ms \<Longrightarrow> map_of ms k = Some v \<Longrightarrow> distinct_keys v"
  by (induction ms) (auto split: if_splits)

lemma MemorySchema_parse_distinct:
  assumes "distinct_keys j" "MemorySchema_parse j = Some d"
  shows "distinct (map fst (known_concepts d))"
proof -
  from assms(2) obtain ms kc where j: "j = JObj ms"
    and kc: "map_of ms ''known_concepts'' = Some (JObj kc)"
    and r: "record_boolean_parse kc = Some (known_concepts d)"
    by (auto simp: MemorySchema_parse_def split: json.splits option.splits)
  have "distinct_keys (JObj kc)"
    using assms(1) kc unfolding j by (auto dest: distinct_keys_members_lookup)
  then have "distinct (map fst (map (\<lambda>(k, b). (k, JBool b)) (known_concepts d)))"
    using record_boolean_parse_json[OF r] by simp
  then show ?thesis
    unfolding map_fst_json_of .
qed

lemma MemorySchema_parse_json_of: "MemorySchema_parse (json_of_MemoryData d) = Some d"
  by (simp add: MemorySchema_parse_def json_of_MemoryData_def json_of_known_concepts_def
      record_boolean_parse_json_of)

section \<open>The store\<close>

lemma readMemory_files: "snd (readMemory fs) = fs"
  by (simp add: readMemory_def split: option.splits)

lemma readMemory_Inr:
  assumes "fst (readMemory fs) = Inr d"
  shows "\<exists>data j. memory_json fs = Some data \<and> JSON_parse data = Some j
           \<and> MemorySchema_parse j = Some d"
  using assms by (auto simp: readMemory_def split: option.splits)

lemma readMemory_distinct:
  assumes "fst (readMemory fs) = Inr d"
  shows "distinct (map fst (known_concepts d))"
proof -
  from readMemory_Inr[OF assms] obtain data j
    where "JSON_parse data = Some j" "MemorySchema_parse j = Some d" by blast
  then show ?thesis
    by (blast intro: MemorySchema_parse_distinct JSON_parse_distinct_keys)
qed

lemma readMemory_written:
  assumes "distinct (map fst (known_concepts d))"
  shows "readMemory (fs_writeFile (JSON_stringify (json_of_MemoryData d) space) fs)
           = (Inr d, fs_writeFile (JSON_stringify (json_of_MemoryData d) space) fs)"
  by (simp add: readMemory_def fs_writeFile_def JSON_parse_stringify_MemoryData[OF assms]
      MemorySchema_parse_json_of)

lemma writeMemory_MemoryData:
  "writeMemory (json_of_MemoryData d) fs
     = (Inr (), fs_writeFile (JSON_stringify (json_of_MemoryData d) 2) fs)"
  by (simp add: writeMemory_def MemorySchema_parse_json_of)

lemma write_to_memory_handler_valid:
  assumes "fst (readMemory fs) = Inr d"
  shows "write_to_memory_handler concept known fs =
     (Inr (''Memory updated successfully for concept: '' @ concept),
      fs_writeFile (JSON_stringify (json_of_MemoryData
        (d\<lparr>known_concepts := AList.update concept known (known_concepts d)\<rparr>)) 2) fs)"
proof -
  have "readMemory fs = (Inr d, fs)"
    using assms readMemory_files[of fs] by (cases "readMemory fs") simp
  then show ?thesis
    by (simp add: write_to_memory_handler_def writeMemory_MemoryData)
qed


lemma write_to_memory_handler_not_InvalidInput:
  "fst (write_to_memory_handler concept known fs) \<noteq> Inl InvalidInput"
  by (auto simp: write_to_memory_handler_def readMemory_def writeMemory_def Let_def
      split: prod.splits sum.splits option.splits)

section \<open>The claims\<close>

subsection \<open>C1: an empty concept\<close>

text \<open>
  C1 (as claimed): an invocation of \<^verbatim>\<open>write_to_memory\<close> whose \<^verbatim>\<open>concept\<close> is the empty string
  fails with \<open>InvalidInput\<close> and leaves the store as it was. The code does not do this:
  the input shape is \<^verbatim>\<open>z.string()\<close>, which the empty string fits, and the handler has no
  check of its own. On the store \<^verbatim>\<open>{"user_id":"u1","known_concepts":{}}\<close> the call succeeds
  and the file is rewritten with the entry \<^verbatim>\<open>"": true\<close>.
\<close>

theorem C1_empty_concept_counterexample:
  "write_to_memory (JObj [(''concept'', JStr ''''), (''known'', JBool True)])
     \<lparr>memory_json = Some ''{\"user_id\":\"u1\",\"known_concepts\":{}}'', writes = 0\<rparr>
   = (Inr ''Memory updated successfully for concept: '',
      \<lparr>memory_json = Some ''{\<newline>  \"user_id\": \"u1\",\<newline>  \"known_concepts\": {\<newline>    \"\": true\<newline>  }\<newline>}'',
       writes = 1\<rparr>)"
  by code_simp

text \<open>
  C1 (amended): an invocation of \<^verbatim>\<open>write_to_memory\<close> whose \<^verbatim>\<open>concept\<close> is the empty string
  (and whose \<^verbatim>\<open>known\<close> is a boolean) is accepted like any other concept. It never fails
  with \<open>InvalidInput\<close>; on a store that holds a valid document it returns the
  confirmation, writes the document with the entry for the empty name set to \<^verbatim>\<open>known\<close>,
  and a read of the store afterwards returns that document.
\<close>

theorem C1_empty_concept_accepted:
  assumes "writeMemoryInputShape_parse args = Some ([], known)"
  shows "fst (write_to_memory args fs) \<noteq> Inl InvalidInput
         \<and> (\<forall>d. fst (readMemory fs) = Inr d \<longrightarrow>
               write_to_memory args fs =
                 (Inr ''Memory updated successfully for concept: '',
                  fs_writeFile (JSON_stringify (json_of_MemoryData
                    (d\<lparr>known_concepts := AList.update [] known (known_concepts d)\<rparr>)) 2) fs)
               \<and> fst (readMemory (snd (write_to_memory args fs)))
                   = Inr (d\<lparr>known_concepts := AList.update [] known (known_concepts d)\<rparr>))"
proof (intro conjI allI impI)
  show "fst (write_to_memory args fs) \<noteq> Inl InvalidInput"
    using write_to_memory_handler_not_InvalidInput[of "[]" known fs]
    by (simp add: write_to_memory_def assms)
next
  fix d
  assume r: "fst (readMemory fs) = Inr d"
  define d' where "d' = d\<lparr>known_concepts := AList.update [] known (known_concepts d)\<rparr>"
  show w: "write_to_memory args fs =
      (Inr ''Memory updated successfully for concept: '',
       fs_writeFile (JSON_stringify (json_of_MemoryData
         (d\<lparr>known_concepts := AList.update [] known (known_concepts d)\<rparr>)) 2) fs)"
    using write_to_memory_handler_valid[OF r, of "[]" known]
    by (simp add: write_to_memory_def assms)
  have "distinct (map fst (known_concepts d'))"
    unfolding d'_def using readMemory_distinct[OF r] by (simp add: distinct_update)
  then have "fst (readMemory (fs_writeFile (JSON_stringify (json_of_MemoryData d') 2) fs)) = Inr d'"
    by (simp add: readMemory_written)
  then show "fst (readMemory (snd (write_to_memory args fs)))
      = Inr (d\<lparr>known_concepts := AList.update [] known (known_concepts d)\<rparr>)"
    unfolding w d'_def by simp
qed

theorem C1_empty_concept_accepted_witness:
  "writeMemoryInputShape_parse (JObj [(''concept'', JStr ''''), (''known'', JBool False)])
     = Some ([], False)
   \<and> fst (readMemory \<lparr>memory_json = Some ''{\"user_id\":\"u1\",\"known_concepts\":{\"Grid\":true}}'', writes = 3\<rparr>)
     = Inr \<lparr>user_id = ''u1'', known_concepts = [(''Grid'', True)]\<rparr>
   \<and> fst (readMemory (snd (write_to_memory (JObj [(''concept'', JStr ''''), (''known'', JBool False)])
         \<lparr>memory_json = Some ''{\"user_id\":\"u1\",\"known_concepts\":{\"Grid\":true}}'', writes = 3\<rparr>)))
     = Inr \<lparr>user_id = ''u1'', known_concepts = [(''Grid'', True), ('''', False)]\<rparr>"
proof -
  have a: "writeMemoryInputShape_parse (JObj [(''concept'', JStr ''''), (''known'', JBool False)])
     = Some ([], False)"
    by code_simp
  have r: "fst (readMemory \<lparr>memory_json = Some ''{\"user_id\":\"u1\",\"known_concepts\":{\"Grid\":true}}'', writes = 3\<rparr>)
     = Inr \<lparr>user_id = ''u1'', known_concepts = [(''Grid'', True)]\<rparr>"
    by code_simp
  have e: "\<lparr>user_id = ''u1'', known_concepts = [(''Grid'', True)]\<rparr>
      \<lparr>known_concepts := AList.update [] False
         (known_concepts \<lparr>user_id = ''u1'', known_concepts = [(''Grid'', True)]\<rparr>)\<rparr>
      = \<lparr>user_id = ''u1'', known_concepts = [(''Grid'', True), ('''', False)]\<rparr>"
    by simp
  from conjunct2[OF C1_empty_concept_accepted[OF a]] r
  have "fst (readMemory (snd (write_to_memory (JObj [(''concept'', JStr ''''), (''known'', JBool False)])
         \<lparr>memory_json = Some ''{\"user_id\":\"u1\",\"known_concepts\":{\"Grid\":true}}'', writes = 3\<rparr>)))
     = Inr (\<lparr>user_id = ''u1'', known_concepts = [(''Grid'', True)]\<rparr>
      \<lparr>known_concepts := AList.update [] False
         (known_concepts \<lparr>user_id = ''u1'', known_concepts = [(''Grid'', True)]\<rparr>)\<rparr>)"
    by blast
  then have "fst (readMemory (snd (write_to_memory (JObj [(''concept'', JStr ''''), (''known'', JBool False)])
         \<lparr>memory_json = Some ''{\"user_id\":\"u1\",\"known_concepts\":{\"Grid\":true}}'', writes = 3\<rparr>)))
     = Inr \<lparr>user_id = ''u1'', known_concepts = [(''Grid'', True), ('''', False)]\<rparr>"
    unfolding e .
  with a r show ?thesis by blast
qed

subsection \<open>C2: the tool and the resource\<close>

text \<open>
  C2 (as claimed): for the same state, the payload of the tool \<^verbatim>\<open>read_from_memory\<close> and the
  payload of the resource \<^verbatim>\<open>css_knowledge_memory\<close> are byte-identical. They are not:
  the tool calls \<^verbatim>\<open>JSON.stringify(memoryData, null, 2)\<close> and the resource
  \<^verbatim>\<open>JSON.stringify(memoryData)\<close>, so the tool's text has line breaks and indentation.
\<close>

theorem C2_payloads_differ_counterexample:
  "fst (read_from_memory
          \<lparr>memory_json = Some ''{\"user_id\":\"u1\",\"known_concepts\":{}}'', writes = 0\<rparr>)
     = Inr ''{\<newline>  \"user_id\": \"u1\",\<newline>  \"known_concepts\": {}\<newline>}''
   \<and> fst (css_knowledge_memory ''memory://css_knowledge_memory/''
          \<lparr>memory_json = Some ''{\"user_id\":\"u1\",\"known_concepts\":{}}'', writes = 0\<rparr>)
     = Inr (''memory://css_knowledge_memory/'', ''application/json'',
            ''{\"user_id\":\"u1\",\"known_concepts\":{}}'')
   \<and> ''{\<newline>  \"user_id\": \"u1\",\<newline>  \"known_concepts\": {}\<newline>}''
     \<noteq> ''{\"user_id\":\"u1\",\"known_concepts\":{}}''"
  by code_simp

text \<open>
  C2 (amended): for every state of the store, the tool and the resource either fail with
  the same error, or both succeed, and then both payloads are JSON texts of the same
  validated document: the tool's is \<^verbatim>\<open>JSON.stringify\<close> with an indentation of two, the
  resource's is \<^verbatim>\<open>JSON.stringify\<close> without indentation, and \<^verbatim>\<open>JSON.parse\<close> of either
  gives the document back. Neither call changes the store.
\<close>

theorem C2_same_document:
  "case fst (readMemory fs) of
     Inl e \<Rightarrow>
       read_from_memory fs = (Inl e, fs) \<and> css_knowledge_memory uri fs = (Inl e, fs)
   | Inr d \<Rightarrow>
       read_from_memory fs = (Inr (JSON_stringify (json_of_MemoryData d) 2), fs)
       \<and> css_knowledge_memory uri fs
           = (Inr (uri, ''application/json'', JSON_stringify (json_of_MemoryData d) 0), fs)
       \<and> JSON_parse (JSON_stringify (json_of_MemoryData d) 2) = Some (json_of_MemoryData d)
       \<and> JSON_parse (JSON_stringify (json_of_MemoryData d) 0) = Some (json_of_MemoryData d)"
proof (cases "fst (readMemory fs)")
  case (Inl e)
  then have "readMemory fs = (Inl e, fs)"
    using readMemory_files[of fs] by (cases "readMemory fs") simp
  then show ?thesis
    using Inl by (simp add: read_from_memory_def css_knowledge_memory_def)
next
  case (Inr d)
  then have "readMemory fs = (Inr d, fs)"
    using readMemory_files[of fs] by (cases "readMemory fs") simp
  moreover note JSON_parse_stringify_MemoryData[OF readMemory_distinct[OF Inr]]
  ultimately show ?thesis
    using Inr by (simp add: read_from_memory_def css_knowledge_memory_def)
qed

subsection \<open>C3: write, then read\<close>



subsection \<open>C4: no credential, no external update tool\<close>

text \<open>
  C4: when \<^verbatim>\<open>OPENROUTER_API_KEY\<close> is absent, the server starts, \<^verbatim>\<open>get_latest_updates\<close> is
  not in the list of capabilities, invoking it fails with \<open>UnknownCapability\<close>, and the
  other capabilities are registered and are dispatched to their handlers: the resource
  and the two memory tools always, the prompt whenever its text file can be read.
\<close>

theorem C4_no_credential:
  assumes "OPENROUTER_API_KEY cfg = None"
  shows "\<exists>reg. server cfg = Inr reg
         \<and> ''get_latest_updates'' \<notin> set (list_capabilities reg)
         \<and> invoke reg ''get_latest_updates'' input reply fs = (Inl UnknownCapability, fs)
         \<and> list_capabilities reg
             = (case css_updater_prompt_txt cfg of
                  None \<Rightarrow> []
                | Some promptText \<Rightarrow> [''css-tutor-guidance''])
               @ [''css_knowledge_memory'', ''read_from_memory'', ''write_to_memory'']
         \<and> invoke reg ''css_knowledge_memory'' input reply fs
             = run_handler CssKnowledgeMemory input reply fs
         \<and> invoke reg ''read_from_memory'' input reply fs
             = run_handler ReadFromMemory input reply fs
         \<and> invoke reg ''write_to_memory'' input reply fs
             = run_handler WriteToMemory input reply fs
         \<and> (case css_updater_prompt_txt cfg of
               None \<Rightarrow> True
             | Some promptText \<Rightarrow>
                 invoke reg ''css-tutor-guidance'' input reply fs = (Inr (Messages promptText), fs))"
  using assms
  by (cases "css_updater_prompt_txt cfg")
     (simp_all add: server_def registerPrompts_def registerCssTutorPrompt_def
       registerResources_def registerCssKnowledgeMemoryResource_def registerTools_def
       registerReadFromMemoryTool_def registerWriteToMemoryTool_def
       registerGetLatestUpdatesTool_def register_def list_capabilities_def invoke_def
       run_handler_def)

theorem C4_no_credential_witness:
  "OPENROUTER_API_KEY \<lparr>OPENROUTER_API_KEY = None, css_updater_prompt_txt = Some ''You are a helpful assistant''\<rparr> = None
   \<and> server \<lparr>OPENROUTER_API_KEY = None, css_updater_prompt_txt = Some ''You are a helpful assistant''\<rparr>
     = Inr [(''css-tutor-guidance'', Guidance, CssTutorGuidance ''You are a helpful assistant''),
            (''css_knowledge_memory'', Resource, CssKnowledgeMemory),
            (''read_from_memory'', Action, ReadFromMemory),
            (''write_to_memory'', Action, WriteToMemory)]
   \<and> (\<exists>reg. server \<lparr>OPENROUTER_API_KEY = None, css_updater_prompt_txt = Some ''You are a helpful assistant''\<rparr> = Inr reg
        \<and> invoke reg ''get_latest_updates'' (JObj []) None \<lparr>memory_json = None, writes = 0\<rparr>
            = (Inl UnknownCapability, \<lparr>memory_json = None, writes = 0\<rparr>))"
proof -
  have k: "OPENROUTER_API_KEY \<lparr>OPENROUTER_API_KEY = None, css_updater_prompt_txt = Some ''You are a helpful assistant''\<rparr> = None"
    by simp
  have s: "server \<lparr>OPENROUTER_API_KEY = None, css_updater_prompt_txt = Some ''You are a helpful assistant''\<rparr>
     = Inr [(''css-tutor-guidance'', Guidance, CssTutorGuidance ''You are a helpful assistant''),
            (''css_knowledge_memory'', Resource, CssKnowledgeMemory),
            (''read_from_memory'', Action, ReadFromMemory),
            (''write_to_memory'', Action, WriteToMemory)]"
    by code_simp
  from C4_no_credential[OF k, of "JObj []" None "\<lparr>memory_json = None, writes = 0\<rparr>"]
  have "\<exists>reg. server \<lparr>OPENROUTER_API_KEY = None, css_updater_prompt_txt = Some ''You are a helpful assistant''\<rparr> = Inr reg
        \<and> invoke reg ''get_latest_updates'' (JObj []) None \<lparr>memory_json = None, writes = 0\<rparr>
            = (Inl UnknownCapability, \<lparr>memory_json = None, writes = 0\<rparr>)"
    by blast
  with k s show ?thesis by blast
qed

subsection \<open>C5: a stored record that fails the schema\<close>

text \<open>
  C5: when the text of the memory file is JSON that fails the schema (a value under
  \<^verbatim>\<open>known_concepts\<close> that is not a boolean, for one), \<^verbatim>\<open>readMemory\<close> fails with the
  read error caused by \<^verbatim>\<open>ZodError\<close> (the taxonomy's \<^verbatim>\<open>CorruptState\<close>), and the files are
  as before: same text, no write counted.
\<close>

theorem C5_readMemory_corrupt:
  assumes "memory_json fs = Some data"
    and "JSON_parse data = Some j"
    and "MemorySchema_parse j = None"
  shows "readMemory fs = (Inl (ReadMemoryError ZodError), fs)"
  using assms by (simp add: readMemory_def)

theorem C5_readMemory_corrupt_witness:
  "JSON_parse ''{\"user_id\":\"u1\",\"known_concepts\":{\"Flexbox\":\"yes\"}}''
     = Some (JObj [(''user_id'', JStr ''u1''),
                   (''known_concepts'', JObj [(''Flexbox'', JStr ''yes'')])])
   \<and> MemorySchema_parse (JObj [(''user_id'', JStr ''u1''),
                                (''known_concepts'', JObj [(''Flexbox'', JStr ''yes'')])]) = None
   \<and> readMemory \<lparr>memory_json = Some ''{\"user_id\":\"u1\",\"known_concepts\":{\"Flexbox\":\"yes\"}}'', writes = 0\<rparr>
       = (Inl (ReadMemoryError ZodError),
          \<lparr>memory_json = Some ''{\"user_id\":\"u1\",\"known_concepts\":{\"Flexbox\":\"yes\"}}'', writes = 0\<rparr>)"
proof -
  have p: "JSON_parse ''{\"user_id\":\"u1\",\"known_concepts\":{\"Flexbox\":\"yes\"}}''
     = Some (JObj [(''user_id'', JStr ''u1''),
                   (''known_concepts'', JObj [(''Flexbox'', JStr ''yes'')])])"
    by code_simp
  have v: "MemorySchema_parse (JObj [(''user_id'', JStr ''u1''),
                                (''known_concepts'', JObj [(''Flexbox'', JStr ''yes'')])]) = None"
    by code_simp
  show ?thesis
    using p v C5_readMemory_corrupt[OF _ p v,
        of "\<lparr>memory_json = Some ''{\"user_id\":\"u1\",\"known_concepts\":{\"Flexbox\":\"yes\"}}'', writes = 0\<rparr>"]
    by simp
qed

subsection \<open>C6: validation before the write\<close>

text \<open>
  C6: \<^verbatim>\<open>writeMemory\<close> validates the document before it touches the file. If validation
  fails, it fails with the write error caused by \<^verbatim>\<open>ZodError\<close> (the taxonomy's
  \<^verbatim>\<open>InvalidDocument\<close>) and the files are as before. If validation succeeds, the text of
  the file becomes \<^verbatim>\<open>JSON.stringify(newData, null, 2)\<close>, whatever the file held: the
  new text is a function of the new document alone.
\<close>

theorem C6_writeMemory:
  "(MemorySchema_parse newData = None \<longrightarrow>
      writeMemory newData fs = (Inl (WriteMemoryError ZodError), fs))
   \<and> (MemorySchema_parse newData \<noteq> None \<longrightarrow>
      writeMemory newData fs
        = (Inr (), \<lparr>memory_json = Some (JSON_stringify newData 2), writes = Suc (writes fs)\<rparr>))"
  by (auto simp: writeMemory_def fs_writeFile_def)

theorem C6_writeMemory_witness:
  "MemorySchema_parse (JObj [(''user_id'', JStr ''u1''), (''known_concepts'', JObj [(''Grid'', JNum ''1'')])]) = None
   \<and> writeMemory (JObj [(''user_id'', JStr ''u1''), (''known_concepts'', JObj [(''Grid'', JNum ''1'')])])
        \<lparr>memory_json = Some ''{\"user_id\":\"u0\",\"known_concepts\":{\"Flexbox\":true}}'', writes = 0\<rparr>
     = (Inl (WriteMemoryError ZodError),
        \<lparr>memory_json = Some ''{\"user_id\":\"u0\",\"known_concepts\":{\"Flexbox\":true}}'', writes = 0\<rparr>)
   \<and> MemorySchema_parse (JObj [(''user_id'', JStr ''u1''), (''known_concepts'', JObj [(''Grid'', JBool True)])]) \<noteq> None
   \<and> writeMemory (JObj [(''user_id'', JStr ''u1''), (''known_concepts'', JObj [(''Grid'', JBool True)])])
        \<lparr>memory_json = Some ''{\"user_id\":\"u0\",\"known_concepts\":{\"Flexbox\":true}}'', writes = 0\<rparr>
     = (Inr (),
        \<lparr>memory_json = Some ''{\<newline>  \"user_id\": \"u1\",\<newline>  \"known_concepts\": {\<newline>    \"Grid\": true\<newline>  }\<newline>}'',
         writes = 1\<rparr>)"
proof -
  have bad: "MemorySchema_parse (JObj [(''user_id'', JStr ''u1''), (''known_concepts'', JObj [(''Grid'', JNum ''1'')])]) = None"
    by code_simp
  have good: "MemorySchema_parse (JObj [(''user_id'', JStr ''u1''), (''known_concepts'', JObj [(''Grid'', JBool True)])]) \<noteq> None"
    by code_simp
  have out: "JSON_stringify (JObj [(''user_id'', JStr ''u1''), (''known_concepts'', JObj [(''Grid'', JBool True)])]) 2
      = ''{\<newline>  \"user_id\": \"u1\",\<newline>  \"known_concepts\": {\<newline>    \"Grid\": true\<newline>  }\<newline>}''"
    by code_simp
  show ?thesis
    using bad good out
      C6_writeMemory[of "JObj [(''user_id'', JStr ''u1''), (''known_concepts'', JObj [(''Grid'', JNum ''1'')])]"
        "\<lparr>memory_json = Some ''{\"user_id\":\"u0\",\"known_concepts\":{\"Flexbox\":true}}'', writes = 0\<rparr>"]
      C6_writeMemory[of "JObj [(''user_id'', JStr ''u1''), (''known_concepts'', JObj [(''Grid'', JBool True)])]"
        "\<lparr>memory_json = Some ''{\"user_id\":\"u0\",\"known_concepts\":{\"Flexbox\":true}}'', writes = 0\<rparr>"]
    by simp
qed

subsection \<open>C7: the provider's answer\<close>

text \<open>
  C7 (as claimed): on a success response whose body lacks \<^verbatim>\<open>choices[0].message.content\<close> the
  invocation fails with the protocol error, and when the field is present its text is
  returned verbatim. The second half fails: the test is \<^verbatim>\<open>if (!assistantMessage)\<close>, and a
  field that is present and holds the empty string is false there. The body
  \<^verbatim>\<open>{"choices":[{"message":{"content":""}}]}\<close> has the field, and the invocation fails.
\<close>

theorem C7_present_but_empty_counterexample:
  "JSON_parse ''{\"choices\":[{\"message\":{\"content\":\"\"}}]}''
     = Some (JObj [(''choices'', JArr [JObj [(''message'', JObj [(''content'', JStr '''')])]])])
   \<and> assistantMessage (JObj [(''choices'', JArr [JObj [(''message'', JObj [(''content'', JStr '''')])]])])
     = Inr (Some (JStr ''''))
   \<and> get_latest_updates
        (Some \<lparr>status = 200, statusText = ''OK'',
                body = ''{\"choices\":[{\"message\":{\"content\":\"\"}}]}''\<rparr>)
     = Inl NoAssistantMessage"
  by code_simp

text \<open>
  C7 (amended): on a success response whose body is a JSON value other than \<^verbatim>\<open>null\<close>, the
  invocation fails with the protocol error (\<open>NoAssistantMessage\<close>) when
  \<^verbatim>\<open>choices[0].message.content\<close> is missing or is a value that counts as false (\<^verbatim>\<open>null\<close>,
  \<^verbatim>\<open>false\<close>, zero, the empty string); otherwise the value found there is returned as it
  is.
\<close>

theorem C7_extraction:
  assumes "ok r"
    and "JSON_parse (body r) = Some data"
    and "data \<noteq> JNull"
  shows "\<exists>m. assistantMessage data = Inr m
         \<and> get_latest_updates (Some r)
             = (case m of
                  None \<Rightarrow> Inl NoAssistantMessage
                | Some v \<Rightarrow> if falsy (Some v) then Inl NoAssistantMessage else Inr v)"
  using assms
  by (cases data) (auto simp: get_latest_updates_def assistantMessage_def split: option.splits)

theorem C7_extraction_witness:
  "ok \<lparr>status = 200, statusText = ''OK'',
       body = ''{\"choices\":[{\"message\":{\"role\":\"assistant\",\"content\":\"CSS nesting\"}}]}''\<rparr>
   \<and> JSON_parse ''{\"choices\":[{\"message\":{\"role\":\"assistant\",\"content\":\"CSS nesting\"}}]}''
     = Some (JObj [(''choices'', JArr [JObj [(''message'',
          JObj [(''role'', JStr ''assistant''), (''content'', JStr ''CSS nesting'')])]])])
   \<and> JObj [(''choices'', JArr [JObj [(''message'',
          JObj [(''role'', JStr ''assistant''), (''content'', JStr ''CSS nesting'')])]])] \<noteq> JNull
   \<and> get_latest_updates
        (Some \<lparr>status = 200, statusText = ''OK'',
                body = ''{\"choices\":[{\"message\":{\"role\":\"assistant\",\"content\":\"CSS nesting\"}}]}''\<rparr>)
     = Inr (JStr ''CSS nesting'')"
proof -
  define r where "r = \<lparr>status = 200, statusText = ''OK'',
       body = ''{\"choices\":[{\"message\":{\"role\":\"assistant\",\"content\":\"CSS nesting\"}}]}''\<rparr>"
  define data where "data = JObj [(''choices'', JArr [JObj [(''message'',
          JObj [(''role'', JStr ''assistant''), (''content'', JStr ''CSS nesting'')])]])]"
  have o: "ok r"
    by (simp add: r_def ok_def)
  have p: "JSON_parse (body r) = Some data"
    unfolding r_def data_def by code_simp
  have n: "data \<noteq> JNull"
    by (simp add: data_def)
  have a: "assistantMessage data = Inr (Some (JStr ''CSS nesting''))"
    unfolding data_def by code_simp
  from C7_extraction[OF o p n] a
  have "get_latest_updates (Some r) = Inr (JStr ''CSS nesting'')"
    by auto
  with o p n show ?thesis
    unfolding r_def data_def by simp
qed

subsection \<open>C8: the owner's identifier\<close>




subsection \<open>C9: an empty answer\<close>

text \<open>
  C9: when the provider answers with success and \<^verbatim>\<open>choices[0].message.content\<close> is
  present but is the empty string, \<^verbatim>\<open>get_latest_updates\<close> fails with the same error as
  for a missing field; the empty text is not returned as a success.
\<close>

theorem C9_empty_content_fails:
  assumes "ok r"
    and "JSON_parse (body r) = Some data"
    and "assistantMessage data = Inr m"
    and "m = Some (JStr []) \<or> m = None"
  shows "get_latest_updates (Some r) = Inl NoAssistantMessage"
  using assms by (auto simp: get_latest_updates_def)

theorem C9_empty_content_fails_witness:
  "ok \<lparr>status = 200, statusText = ''OK'',
       body = ''{\"id\":\"gen-1\",\"choices\":[{\"message\":{\"role\":\"assistant\",\"content\":\"\"}}]}''\<rparr>
   \<and> JSON_parse ''{\"id\":\"gen-1\",\"choices\":[{\"message\":{\"role\":\"assistant\",\"content\":\"\"}}]}''
     = Some (JObj [(''id'', JStr ''gen-1''), (''choices'', JArr [JObj [(''message'',
          JObj [(''role'', JStr ''assistant''), (''content'', JStr '''')])]])])
   \<and> assistantMessage (JObj [(''id'', JStr ''gen-1''), (''choices'', JArr [JObj [(''message'',
          JObj [(''role'', JStr ''assistant''), (''content'', JStr '''')])]])])
     = Inr (Some (JStr ''''))
   \<and> get_latest_updates
        (Some \<lparr>status = 200, statusText = ''OK'',
                body = ''{\"id\":\"gen-1\",\"choices\":[{\"message\":{\"role\":\"assistant\",\"content\":\"\"}}]}''\<rparr>)
     = Inl NoAssistantMessage"
proof -
  define r where "r = \<lparr>status = 200, statusText = ''OK'',
       body = ''{\"id\":\"gen-1\",\"choices\":[{\"message\":{\"role\":\"assistant\",\"content\":\"\"}}]}''\<rparr>"
  define data where "data = JObj [(''id'', JStr ''gen-1''), (''choices'', JArr [JObj [(''message'',
          JObj [(''role'', JStr ''assistant''), (''content'', JStr '''')])]])]"
  have o: "ok r"
    by (simp add: r_def ok_def)
  have p: "JSON_parse (body r) = Some data"
    unfolding r_def data_def by code_simp
  have a: "assistantMessage data = Inr (Some (JStr ''''))"
    unfolding data_def by code_simp
  have "get_latest_updates (Some r) = Inl NoAssistantMessage"
    by (rule C9_empty_content_fails[OF o p a]) simp
  with o p a show ?thesis
    unfolding r_def data_def by simp
qed

subsection \<open>C10: the owner's identifier across a write\<close>



end
